theory Spec2Isabelle
  imports Main "HOL-Library.Word" "HOL-Library.Stream"
begin

section \<open>The native event pump of arcade-android (app/src/main/cpp/main.cpp)\<close>

text \<open>
  The file installs a lifecycle-command handler and an input handler in the application
  handle, writes a start-up record to the diagnostic sink and then polls the looper in two
  nested loops until the destroy-requested flag is seen after a drained event.

  The model is a shallow embedding with explicit state passing. Everything the code can
  observe or change lives in a \<open>world\<close>: the \<open>android_app\<close> struct, the answers
  the looper will give to the coming calls of \<open>ALooper_pollOnce\<close>, and the trace of what
  the code has done so far (log records and poll calls, in order).
\<close>

subsection \<open>Data\<close>

type_synonym int32 = "32 word"

text \<open>
  Modelled from the spec: the severities of the diagnostic sink. The enumeration is declared
  in android/log.h, which is not among the sources; the spec asks only that the informational
  and the verbose severity can be told apart. These are the two the code uses.
\<close>

datatype android_LogPriority = ANDROID_LOG_VERBOSE | ANDROID_LOG_INFO

text \<open>
  The integer constants of android_native_app_glue.h and android/input.h that the code
  compares against. The headers are not among the sources, so the constants are parameters
  of the model: every function below takes them as its first argument.
\<close>

record glue_constants =
  APP_CMD_INIT_WINDOW :: int32
  APP_CMD_TERM_WINDOW :: int32
  AINPUT_EVENT_TYPE_MOTION :: int32

text \<open>
  Modelled from the spec: the input event, declared in android/input.h, which is not among
  the sources. It is "an opaque record ... classified by an event-type tag"; the only thing
  the code reads from it is that tag, through \<open>AInputEvent_getType\<close>.
\<close>

record AInputEvent =
  AInputEvent_getType :: int32

text \<open>
  Modelled from the spec: the application handle, declared in android_native_app_glue.h,
  which is not among the sources. It "carries two mutable callback slots (command handler,
  input handler) and a destroy-requested flag". The slots hold function pointers: a slot is
  \<open>None\<close> for a null pointer and otherwise names the function stored in it. The
  two functions of this file are the only ones it ever stores there.
\<close>

datatype cmd_callback = handleAppCommand_ptr
datatype input_callback = handleInputEvent_ptr

record android_app =
  onAppCmd :: "cmd_callback option"
  onInputEvent :: "input_callback option"
  destroyRequested :: int32

text \<open>
  Modelled from the spec: what the processing routine of a poll source does (section 4.3:
  it "internally routes to 4.1 or 4.2 as appropriate", and the operating system sets the
  destroy-requested flag). The routine belongs to the platform's glue library; here it is
  the list of its steps: hand a lifecycle command to the command callback, hand an input
  event to the input callback, or set the destroy-requested flag.
\<close>

datatype glue_action =
    DeliverCmd int32
  | DeliverInput AInputEvent
  | RequestDestroy

record android_poll_source =
  process_steps :: "glue_action list"

text \<open>
  One answer of \<open>ALooper_pollOnce\<close>: the returned status and the pointer the call
  leaves in the local variable \<open>source\<close> (\<open>None\<close> for \<open>nullptr\<close>).
\<close>

record poll_outcome =
  status :: int32
  source :: "android_poll_source option"

text \<open>
  What the code does that can be seen from outside: it calls the looper and it writes
  records (severity, tag, message) to the diagnostic sink.
\<close>

datatype event =
    PollCall
  | LogRecord android_LogPriority string string

record world =
  app :: android_app
  looper :: "poll_outcome stream"
  trace :: "event list"

subsection \<open>The diagnostic sink and the looper\<close>

definition kLogTag :: string where
  "kLogTag = ''arcade-native''"

text \<open>
  Modelled from the spec: the diagnostic sink \<open>__android_log_print\<close> of android/log.h
  "accepts (severity, tag, formatted message)"; the record goes to the end of the trace.
  None of the format strings in the file has an argument.
\<close>

definition android_log_print :: "android_LogPriority \<Rightarrow> string \<Rightarrow> string \<Rightarrow> world \<Rightarrow> world" where
  "android_log_print prio tag msg w = w\<lparr>trace := trace w @ [LogRecord prio tag msg]\<rparr>"

text \<open>
  Modelled from the spec: the looper's non-blocking poll (section 4.3), a function of the
  platform. The code calls it with timeout 0 and reads two things back: the status it
  returns and the pointer it stores through \<open>outData\<close>. Each call takes the next
  answer from the stream and is noted in the trace.
\<close>

definition ALooper_pollOnce :: "world \<Rightarrow> poll_outcome \<times> world" where
  "ALooper_pollOnce w =
     (shd (looper w), w\<lparr>looper := stl (looper w), trace := trace w @ [PollCall]\<rparr>)"

subsection \<open>The two handlers\<close>

text \<open>
  The handlers take the application handle as a pointer they never follow; in the model
  the handle is part of the world they are given. The \<open>switch\<close> of the dispatcher
  becomes a chain of tests in the order of its \<open>case\<close> labels.
\<close>

definition handleAppCommand :: "glue_constants \<Rightarrow> int32 \<Rightarrow> world \<Rightarrow> world" where
  "handleAppCommand K cmd w =
     (if cmd = APP_CMD_INIT_WINDOW K then
        android_log_print ANDROID_LOG_INFO kLogTag ''Window initialized'' w
      else if cmd = APP_CMD_TERM_WINDOW K then
        android_log_print ANDROID_LOG_INFO kLogTag ''Window terminated'' w
      else w)"

definition handleInputEvent :: "glue_constants \<Rightarrow> AInputEvent \<Rightarrow> world \<Rightarrow> int32 \<times> world" where
  "handleInputEvent K ev w =
     (if AInputEvent_getType ev = AINPUT_EVENT_TYPE_MOTION K then
        (0, android_log_print ANDROID_LOG_VERBOSE kLogTag ''Motion input event'' w)
      else (0, w))"

subsection \<open>The processing routine of a poll source\<close>

fun glue_step :: "glue_constants \<Rightarrow> glue_action \<Rightarrow> world \<Rightarrow> world" where
  "glue_step K (DeliverCmd cmd) w =
     (case onAppCmd (app w) of
        None \<Rightarrow> w
      | Some handleAppCommand_ptr \<Rightarrow> handleAppCommand K cmd w)"
| "glue_step K (DeliverInput ev) w =
     (case onInputEvent (app w) of
        None \<Rightarrow> w
      | Some handleInputEvent_ptr \<Rightarrow> snd (handleInputEvent K ev w))"
| "glue_step K RequestDestroy w = w\<lparr>app := (app w)\<lparr>destroyRequested := 1\<rparr>\<rparr>"

fun run_steps :: "glue_constants \<Rightarrow> glue_action list \<Rightarrow> world \<Rightarrow> world" where
  "run_steps K [] w = w"
| "run_steps K (a # as) w = run_steps K as (glue_step K a w)"

definition process :: "glue_constants \<Rightarrow> android_poll_source \<Rightarrow> world \<Rightarrow> world" where
  "process K src w = run_steps K (process_steps src) w"

subsection \<open>The entry point\<close>

text \<open>
  Both loops may run forever, so they are partial functions into \<open>option\<close>: \<open>None\<close>
  means that the loop does not come back. The inner loop leaves either through
  \<open>return\<close>, which ends \<open>android_main\<close>, or because the poll status is negative, which
  hands over to the next round of the outer loop.
\<close>

datatype loop_exit = Returned | Drained

text \<open>
  Lines 39 to 41: the processing routine runs only when \<open>source\<close> is not null.
\<close>

definition process_if_source :: "glue_constants \<Rightarrow> poll_outcome \<Rightarrow> world \<Rightarrow> world" where
  "process_if_source K r w = (case source r of None \<Rightarrow> w | Some src \<Rightarrow> process K src w)"

partial_function (option) inner_loop :: "glue_constants \<Rightarrow> world \<Rightarrow> (loop_exit \<times> world) option" where
  "inner_loop K w =
     (case ALooper_pollOnce w of (r, w1) \<Rightarrow>
        if 0 \<le> sint (status r) then
          (let w2 = process_if_source K r w1 in
           if destroyRequested (app w2) \<noteq> 0 then
             Some (Returned,
               android_log_print ANDROID_LOG_INFO kLogTag ''Destroy requested, exiting'' w2)
           else inner_loop K w2)
        else Some (Drained, w1))"

partial_function (option) outer_loop :: "glue_constants \<Rightarrow> world \<Rightarrow> world option" where
  "outer_loop K w =
     (case inner_loop K w of
        None \<Rightarrow> None
      | Some (Returned, w') \<Rightarrow> Some w'
      | Some (Drained, w') \<Rightarrow> outer_loop K w')"

declare inner_loop.simps [code] outer_loop.simps [code]

definition android_main :: "glue_constants \<Rightarrow> world \<Rightarrow> world option" where
  "android_main K w =
     outer_loop K
       (android_log_print ANDROID_LOG_INFO kLogTag ''Native loop started''
          (w\<lparr>app := (app w)\<lparr>onAppCmd := Some handleAppCommand_ptr,
                             onInputEvent := Some handleInputEvent_ptr\<rparr>\<rparr>))"

subsection \<open>Concrete values for worked examples\<close>

text \<open>
  The values the three constants have in the NDK headers, an application handle as the glue
  library hands it over (both slots null, flag clear), and small helpers to write down what
  the looper answers. They serve the examples only; no general theorem depends on them.
\<close>

definition ndk :: glue_constants where
  "ndk = \<lparr>APP_CMD_INIT_WINDOW = 1, APP_CMD_TERM_WINDOW = 2, AINPUT_EVENT_TYPE_MOTION = 2\<rparr>"

definition no_events :: poll_outcome where
  "no_events = \<lparr>status = - 3, source = None\<rparr>"

definition delivers :: "glue_action list \<Rightarrow> poll_outcome" where
  "delivers as = \<lparr>status = 1, source = Some \<lparr>process_steps = as\<rparr>\<rparr>"

definition fresh_app :: android_app where
  "fresh_app = \<lparr>onAppCmd = None, onInputEvent = None, destroyRequested = 0\<rparr>"

text \<open>A world whose looper answers with \<open>rs\<close> and reports an empty queue ever after.\<close>

definition boot :: "android_app \<Rightarrow> poll_outcome list \<Rightarrow> world" where
  "boot a rs = \<lparr>app = a, looper = rs @- sconst no_events, trace = []\<rparr>"

subsection \<open>Vocabulary of the trace\<close>

text \<open>The records the two handlers can write.\<close>

definition handler_records :: "event set" where
  "handler_records =
     {LogRecord ANDROID_LOG_INFO kLogTag ''Window initialized'',
      LogRecord ANDROID_LOG_INFO kLogTag ''Window terminated'',
      LogRecord ANDROID_LOG_VERBOSE kLogTag ''Motion input event''}"

abbreviation started_record :: event where
  "started_record \<equiv> LogRecord ANDROID_LOG_INFO kLogTag ''Native loop started''"

abbreviation final_record :: event where
  "final_record \<equiv> LogRecord ANDROID_LOG_INFO kLogTag ''Destroy requested, exiting''"

text \<open>The severities of the log records of a trace, in order.\<close>

fun severities :: "event list \<Rightarrow> android_LogPriority list" where
  "severities [] = []"
| "severities (PollCall # es) = severities es"
| "severities (LogRecord prio tag msg # es) = prio # severities es"

text \<open>
  The flag is clear and no processing routine that the looper will ever hand out requests
  destruction.
\<close>

definition flag_never_set :: "world \<Rightarrow> bool" where
  "flag_never_set w \<longleftrightarrow>
     destroyRequested (app w) = 0 \<and>
     (\<forall>r \<in> sset (looper w). \<forall>src. source r = Some src \<longrightarrow> RequestDestroy \<notin> set (process_steps src))"

section \<open>Basic facts about the loops\<close>

lemma inner_loop_negative:
  "sint (status (shd (looper w))) < 0 \<Longrightarrow>
   inner_loop K w = Some (Drained, w\<lparr>looper := stl (looper w), trace := trace w @ [PollCall]\<rparr>)"
  by (subst inner_loop.simps) (simp add: ALooper_pollOnce_def)

lemma inner_loop_nonneg:
  "0 \<le> sint (status (shd (looper w))) \<Longrightarrow>
   inner_loop K w =
     (let w2 = process_if_source K (shd (looper w))
                 (w\<lparr>looper := stl (looper w), trace := trace w @ [PollCall]\<rparr>) in
      if destroyRequested (app w2) \<noteq> 0 then
        Some (Returned,
          android_log_print ANDROID_LOG_INFO kLogTag ''Destroy requested, exiting'' w2)
      else inner_loop K w2)"
  by (subst inner_loop.simps) (simp add: ALooper_pollOnce_def)

lemma looper_glue_step [simp]: "looper (glue_step K a w) = looper w"
  by (cases a) (auto simp: handleAppCommand_def handleInputEvent_def android_log_print_def
      split: option.splits cmd_callback.splits input_callback.splits)

lemma looper_run_steps [simp]: "looper (run_steps K as w) = looper w"
  by (induction as arbitrary: w) simp_all

lemma looper_process_if_source [simp]: "looper (process_if_source K r w) = looper w"
  by (simp add: process_if_source_def process_def split: option.splits)

lemma flag_glue_step:
  "destroyRequested (app (glue_step K a w)) = (if a = RequestDestroy then 1 else destroyRequested (app w))"
  by (cases a) (auto simp: handleAppCommand_def handleInputEvent_def android_log_print_def
      split: option.splits cmd_callback.splits input_callback.splits)

lemma flag_run_steps:
  "destroyRequested (app (run_steps K as w)) =
     (if RequestDestroy \<in> set as then 1 else destroyRequested (app w))"
  by (induction as arbitrary: w) (auto simp: flag_glue_step)


lemma trace_glue_step:
  "\<exists>evs. trace (glue_step K a w) = trace w @ evs \<and> set evs \<subseteq> handler_records"
  by (cases a) (auto simp: handleAppCommand_def handleInputEvent_def android_log_print_def
      handler_records_def split: option.splits cmd_callback.splits input_callback.splits)

lemma trace_run_steps:
  "\<exists>evs. trace (run_steps K as w) = trace w @ evs \<and> set evs \<subseteq> handler_records"
proof (induction as arbitrary: w)
  case Nil
  show ?case by simp
next
  case (Cons a as)
  obtain e1 where e1: "trace (glue_step K a w) = trace w @ e1" "set e1 \<subseteq> handler_records"
    using trace_glue_step by blast
  obtain e2 where e2: "trace (run_steps K as (glue_step K a w)) = trace (glue_step K a w) @ e2"
      "set e2 \<subseteq> handler_records"
    using Cons.IH by blast
  have "trace (run_steps K (a # as) w) = trace w @ (e1 @ e2)" "set (e1 @ e2) \<subseteq> handler_records"
    using e1 e2 by simp_all
  then show ?case by blast
qed

lemma trace_process_if_source:
  "\<exists>evs. trace (process_if_source K r w) = trace w @ evs \<and> set evs \<subseteq> handler_records"
proof (cases "source r")
  case None
  then show ?thesis by (simp add: process_if_source_def)
next
  case (Some src)
  then show ?thesis using trace_run_steps [of K "process_steps src" w]
    by (simp add: process_if_source_def process_def)
qed

lemma flag_process_if_source:
  "destroyRequested (app (process_if_source K r w)) =
     (case source r of
        None \<Rightarrow> destroyRequested (app w)
      | Some src \<Rightarrow> if RequestDestroy \<in> set (process_steps src) then 1
                    else destroyRequested (app w))"
  by (simp add: process_if_source_def process_def flag_run_steps split: option.splits)

lemma inner_loop_shape_aux:
  assumes "inner_loop K w = Some y"
  shows "\<exists>evs. set evs \<subseteq> insert PollCall handler_records \<and>
           (case fst y of
              Drained \<Rightarrow> trace (snd y) = trace w @ PollCall # evs
            | Returned \<Rightarrow> trace (snd y) = trace w @ PollCall # evs @ [final_record] \<and>
                          destroyRequested (app (snd y)) \<noteq> 0)"
  using assms
proof (induction rule: inner_loop.raw_induct [rotated 1, consumes 1])
  case (1 inner K w y)
  let ?w1 = "w\<lparr>looper := stl (looper w), trace := trace w @ [PollCall]\<rparr>"
  let ?w2 = "process_if_source K (shd (looper w)) ?w1"
  obtain e2 where e2: "trace ?w2 = trace ?w1 @ e2" "set e2 \<subseteq> handler_records"
    using trace_process_if_source by blast
  show ?case
  proof (cases "0 \<le> sint (status (shd (looper w)))")
    case False
    with 1(2) have "y = (Drained, ?w1)"
      by (simp add: ALooper_pollOnce_def)
    then show ?thesis by (intro exI [of _ "[]"]) simp
  next
    case nonneg: True
    show ?thesis
    proof (cases "destroyRequested (app ?w2) \<noteq> 0")
      case True
      with 1(2) nonneg
      have "y = (Returned, android_log_print ANDROID_LOG_INFO kLogTag ''Destroy requested, exiting'' ?w2)"
        by (simp add: ALooper_pollOnce_def Let_def)
      with True e2 show ?thesis
        by (intro exI [of _ e2]) (auto simp: android_log_print_def)
    next
      case False
      with 1(2) nonneg have "inner K ?w2 = Some y"
        by (simp add: ALooper_pollOnce_def Let_def)
      from 1(1) [OF this] obtain evs where evs: "set evs \<subseteq> insert PollCall handler_records"
        "(case fst y of
              Drained \<Rightarrow> trace (snd y) = trace ?w2 @ PollCall # evs
            | Returned \<Rightarrow> trace (snd y) = trace ?w2 @ PollCall # evs @ [final_record] \<and>
                          destroyRequested (app (snd y)) \<noteq> 0)"
        by blast
      with e2 show ?thesis
        by (intro exI [of _ "e2 @ PollCall # evs"]) (auto split: loop_exit.splits)
    qed
  qed
qed

lemma inner_loop_shape:
  assumes "inner_loop K w = Some (e, w')"
  shows "\<exists>evs. set evs \<subseteq> insert PollCall handler_records \<and>
           (case e of
              Drained \<Rightarrow> trace w' = trace w @ PollCall # evs
            | Returned \<Rightarrow> trace w' = trace w @ PollCall # evs @ [final_record] \<and>
                          destroyRequested (app w') \<noteq> 0)"
  using inner_loop_shape_aux [OF assms] by (cases e) simp_all

lemma outer_loop_shape:
  assumes "outer_loop K w = Some w'"
  shows "destroyRequested (app w') \<noteq> 0 \<and>
         (\<exists>evs. set evs \<subseteq> insert PollCall handler_records \<and>
                trace w' = trace w @ PollCall # evs @ [final_record])"
  using assms
proof (induction rule: outer_loop.raw_induct [rotated 1, consumes 1])
  case (1 outer K w w')
  from 1(2) obtain e w1 where il: "inner_loop K w = Some (e, w1)"
    by (auto split: option.splits)
  from inner_loop_shape [OF il] obtain e1 where e1: "set e1 \<subseteq> insert PollCall handler_records"
        "(case e of
              Drained \<Rightarrow> trace w1 = trace w @ PollCall # e1
            | Returned \<Rightarrow> trace w1 = trace w @ PollCall # e1 @ [final_record] \<and>
                          destroyRequested (app w1) \<noteq> 0)"
    by blast
  show ?case
  proof (cases e)
    case Returned
    with 1(2) il have "w' = w1" by simp
    with e1 Returned show ?thesis by auto
  next
    case Drained
    with 1(2) il have "outer K w1 = Some w'" by simp
    from 1(1) [OF this] obtain e2 where "set e2 \<subseteq> insert PollCall handler_records"
      "trace w' = trace w1 @ PollCall # e2 @ [final_record]" "destroyRequested (app w') \<noteq> 0"
      by blast
    with e1 Drained show ?thesis
      by (intro conjI exI [of _ "e1 @ PollCall # e2"]) auto
  qed
qed


lemma outer_loop_unfold:
  "outer_loop K w =
     (let w1 = w\<lparr>looper := stl (looper w), trace := trace w @ [PollCall]\<rparr>;
          w2 = process_if_source K (shd (looper w)) w1 in
      if sint (status (shd (looper w))) < 0 then outer_loop K w1
      else if destroyRequested (app w2) \<noteq> 0 then
        Some (android_log_print ANDROID_LOG_INFO kLogTag ''Destroy requested, exiting'' w2)
      else outer_loop K w2)"
proof (cases "sint (status (shd (looper w))) < 0")
  case True
  then show ?thesis
    by (subst outer_loop.simps) (simp add: inner_loop_negative Let_def)
next
  case False
  then have nonneg: "0 \<le> sint (status (shd (looper w)))" by simp
  let ?w2 = "process_if_source K (shd (looper w))
               (w\<lparr>looper := stl (looper w), trace := trace w @ [PollCall]\<rparr>)"
  show ?thesis
  proof (cases "destroyRequested (app ?w2) \<noteq> 0")
    case True
    then show ?thesis
      by (subst outer_loop.simps) (simp add: inner_loop_nonneg [OF nonneg] False Let_def)
  next
    case clear: False
    then have "inner_loop K w = inner_loop K ?w2"
      by (simp add: inner_loop_nonneg [OF nonneg] Let_def)
    then have "outer_loop K w = outer_loop K ?w2"
      by (simp add: outer_loop.simps [of K w] outer_loop.simps [of K ?w2])
    with clear False show ?thesis by (simp add: Let_def)
  qed
qed

lemma outer_loop_starves_aux:
  assumes "outer_loop K w = Some w'"
  shows "\<exists>r \<in> sset (looper w). 0 \<le> sint (status r)"
  using assms
proof (induction rule: outer_loop.raw_induct [rotated 1, consumes 1])
  case (1 outer K w w')
  show ?case
  proof (cases "sint (status (shd (looper w))) < 0")
    case False
    then show ?thesis by (intro bexI [of _ "shd (looper w)"]) (simp_all add: shd_sset)
  next
    case True
    with 1(2) have "outer K (w\<lparr>looper := stl (looper w), trace := trace w @ [PollCall]\<rparr>) = Some w'"
      by (simp add: inner_loop_negative)
    from 1(1) [OF this] have "\<exists>r \<in> sset (stl (looper w)). 0 \<le> sint (status r)"
      by simp
    then obtain r where r: "r \<in> sset (stl (looper w))" "0 \<le> sint (status r)" ..
    from stl_sset [OF r(1)] r(2) show ?thesis ..
  qed
qed

lemma outer_loop_starves:
  assumes "\<forall>r \<in> sset (looper w). sint (status r) < 0"
  shows "outer_loop K w = None"
proof (cases "outer_loop K w")
  case None
  then show ?thesis .
next
  case (Some w')
  from outer_loop_starves_aux [OF this] assms show ?thesis by force
qed

lemma flag_never_set_poll:
  assumes "flag_never_set w"
  shows "flag_never_set (w\<lparr>looper := stl (looper w), trace := trace w @ [PollCall]\<rparr>)"
    and "flag_never_set (process_if_source K (shd (looper w))
           (w\<lparr>looper := stl (looper w), trace := trace w @ [PollCall]\<rparr>))"
proof -
  have sub: "\<And>r. r \<in> sset (stl (looper w)) \<Longrightarrow> r \<in> sset (looper w)"
    by (rule stl_sset)
  from assms sub show "flag_never_set (w\<lparr>looper := stl (looper w), trace := trace w @ [PollCall]\<rparr>)"
    by (auto simp: flag_never_set_def)
  have "shd (looper w) \<in> sset (looper w)" by (rule shd_sset)
  with assms sub show "flag_never_set (process_if_source K (shd (looper w))
           (w\<lparr>looper := stl (looper w), trace := trace w @ [PollCall]\<rparr>))"
    by (auto simp: flag_never_set_def flag_process_if_source split: option.splits)
qed

lemma inner_loop_flag_never_set:
  assumes "inner_loop K w = Some y" and "flag_never_set w"
  shows "fst y = Drained \<and> flag_never_set (snd y)"
  using assms
proof (induction rule: inner_loop.raw_induct [rotated 1, consumes 1])
  case (1 inner K w y)
  let ?w1 = "w\<lparr>looper := stl (looper w), trace := trace w @ [PollCall]\<rparr>"
  let ?w2 = "process_if_source K (shd (looper w)) ?w1"
  note q = flag_never_set_poll(1) [OF 1(3)] flag_never_set_poll(2) [OF 1(3), of K]
  show ?case
  proof (cases "0 \<le> sint (status (shd (looper w)))")
    case False
    with 1(2) have "y = (Drained, ?w1)" by (simp add: ALooper_pollOnce_def)
    with q(1) show ?thesis by simp
  next
    case True
    from q(2) have "destroyRequested (app ?w2) = 0" by (simp add: flag_never_set_def)
    with 1(2) True have "inner K ?w2 = Some y" by (simp add: ALooper_pollOnce_def Let_def)
    from 1(1) [OF this q(2)] show ?thesis .
  qed
qed

lemma outer_loop_flag_never_set:
  assumes "outer_loop K w = Some w'"
  shows "\<not> flag_never_set w"
  using assms
proof (induction rule: outer_loop.raw_induct [rotated 1, consumes 1])
  case (1 outer K w w')
  show ?case
  proof
    assume q: "flag_never_set w"
    from 1(2) obtain e w1 where il: "inner_loop K w = Some (e, w1)"
      by (auto split: option.splits)
    from inner_loop_flag_never_set [OF il q] have e: "e = Drained" and q1: "flag_never_set w1"
      by simp_all
    from 1(2) il e have "outer K w1 = Some w'" by simp
    from 1(1) [OF this] q1 show False by simp
  qed
qed


lemma started_not_loop_event:
  "started_record \<notin> insert PollCall handler_records" "started_record \<noteq> final_record"
  by (simp_all add: handler_records_def)

lemma run_destroy_only:
  "android_main ndk (boot fresh_app [delivers [RequestDestroy]]) =
     Some \<lparr>app = \<lparr>onAppCmd = Some handleAppCommand_ptr, onInputEvent = Some handleInputEvent_ptr,
                  destroyRequested = 1\<rparr>,
           looper = sconst no_events,
           trace = [started_record, PollCall, final_record]\<rparr>"
  by (simp add: android_main_def boot_def fresh_app_def delivers_def outer_loop_unfold
      process_if_source_def process_def android_log_print_def Let_def)

lemma flag_stays_set:
  "destroyRequested (app w) \<noteq> 0 \<Longrightarrow> destroyRequested (app (process_if_source K r w)) \<noteq> 0"
  by (simp add: flag_process_if_source split: option.splits)

lemma outer_loop_skips_negatives:
  assumes "looper w = rs @- s" and "\<forall>x \<in> set rs. sint (status x) < 0"
  shows "outer_loop K w =
           outer_loop K (w\<lparr>looper := s, trace := trace w @ replicate (length rs) PollCall\<rparr>)"
  using assms
proof (induction rs arbitrary: w)
  case Nil
  then have "w\<lparr>looper := s, trace := trace w @ replicate (length []) PollCall\<rparr> = w"
    by simp
  then show ?case by simp
next
  case (Cons x rs)
  let ?w1 = "w\<lparr>looper := stl (looper w), trace := trace w @ [PollCall]\<rparr>"
  from Cons.prems have hd: "sint (status (shd (looper w))) < 0" and tl: "looper ?w1 = rs @- s"
    and rest: "\<forall>x \<in> set rs. sint (status x) < 0"
    by simp_all
  from hd have "outer_loop K w = outer_loop K ?w1"
    by (subst outer_loop_unfold) (simp add: Let_def)
  also have "\<dots> = outer_loop K (?w1\<lparr>looper := s, trace := trace ?w1 @ replicate (length rs) PollCall\<rparr>)"
    by (rule Cons.IH [OF tl rest])
  also have "?w1\<lparr>looper := s, trace := trace ?w1 @ replicate (length rs) PollCall\<rparr> =
             w\<lparr>looper := s, trace := trace w @ replicate (length (x # rs)) PollCall\<rparr>"
    by (simp add: replicate_app_Cons_same)
  finally show ?case .
qed

section \<open>The lifecycle command dispatcher\<close>

text \<open>
  C1. For the two recognised commands, window-available (\<open>APP_CMD_INIT_WINDOW\<close>) and
  window-unavailable (\<open>APP_CMD_TERM_WINDOW\<close>), the dispatcher returns the world it was
  given with exactly one record of informational severity appended to the trace; the
  application handle, the looper and the earlier trace are untouched.
\<close>

theorem handleAppCommand_recognized:
  assumes "cmd = APP_CMD_INIT_WINDOW K \<or> cmd = APP_CMD_TERM_WINDOW K"
  shows "handleAppCommand K cmd w =
           w\<lparr>trace := trace w @
               [LogRecord ANDROID_LOG_INFO kLogTag
                  (if cmd = APP_CMD_INIT_WINDOW K then ''Window initialized''
                   else ''Window terminated'')]\<rparr>"
  using assms by (auto simp: handleAppCommand_def android_log_print_def)

theorem handleAppCommand_recognized_witness:
  "(2 = APP_CMD_INIT_WINDOW ndk \<or> 2 = APP_CMD_TERM_WINDOW ndk) \<and>
   handleAppCommand ndk 2 (boot fresh_app []) =
     \<lparr>app = fresh_app, looper = sconst no_events,
      trace = [LogRecord ANDROID_LOG_INFO kLogTag ''Window terminated'']\<rparr>"
proof -
  have h: "2 = APP_CMD_INIT_WINDOW ndk \<or> 2 = APP_CMD_TERM_WINDOW ndk"
    by (simp add: ndk_def)
  show ?thesis
    using h handleAppCommand_recognized [OF h, of "boot fresh_app []"]
    by (simp add: ndk_def boot_def)
qed

text \<open>
  C2. For every other command value the dispatcher takes its default branch: it returns
  the world unchanged, so no record is written and nothing else happens. The dispatcher is
  a total function of the command, so it returns for every 32-bit value.
\<close>

theorem handleAppCommand_unrecognized:
  assumes "cmd \<noteq> APP_CMD_INIT_WINDOW K" and "cmd \<noteq> APP_CMD_TERM_WINDOW K"
  shows "handleAppCommand K cmd w = w"
  using assms by (simp add: handleAppCommand_def)

theorem handleAppCommand_unrecognized_witness:
  "15 \<noteq> APP_CMD_INIT_WINDOW ndk \<and> 15 \<noteq> APP_CMD_TERM_WINDOW ndk \<and>
   handleAppCommand ndk 15 (boot fresh_app []) = boot fresh_app []"
proof -
  have h1: "15 \<noteq> APP_CMD_INIT_WINDOW ndk" and h2: "15 \<noteq> APP_CMD_TERM_WINDOW ndk"
    by (simp_all add: ndk_def)
  show ?thesis
    using h1 h2 handleAppCommand_unrecognized [OF h1 h2, of "boot fresh_app []"]
    by simp
qed

section \<open>The input handler\<close>

text \<open>
  C3. For an input event whose type tag is motion, the input handler appends exactly one
  record of verbose severity to the trace and returns status 0.
\<close>

theorem handleInputEvent_motion:
  assumes "AInputEvent_getType ev = AINPUT_EVENT_TYPE_MOTION K"
  shows "handleInputEvent K ev w =
           (0, w\<lparr>trace := trace w @
                   [LogRecord ANDROID_LOG_VERBOSE kLogTag ''Motion input event'']\<rparr>)"
  using assms by (simp add: handleInputEvent_def android_log_print_def)

theorem handleInputEvent_motion_witness:
  "AInputEvent_getType \<lparr>AInputEvent_getType = 2\<rparr> = AINPUT_EVENT_TYPE_MOTION ndk \<and>
   handleInputEvent ndk \<lparr>AInputEvent_getType = 2\<rparr> (boot fresh_app []) =
     (0, \<lparr>app = fresh_app, looper = sconst no_events,
          trace = [LogRecord ANDROID_LOG_VERBOSE kLogTag ''Motion input event'']\<rparr>)"
proof -
  have h: "AInputEvent_getType \<lparr>AInputEvent_getType = 2\<rparr> = AINPUT_EVENT_TYPE_MOTION ndk"
    by (simp add: ndk_def)
  show ?thesis
    using h handleInputEvent_motion [OF h, of "boot fresh_app []"]
    by (simp add: boot_def)
qed

text \<open>
  C4. For an input event whose type tag is not motion, the input handler writes no record,
  leaves the world as it is and returns status 0. Together with the motion case, the
  returned status is 0 for every input event.
\<close>

theorem handleInputEvent_other:
  "(AInputEvent_getType ev \<noteq> AINPUT_EVENT_TYPE_MOTION K \<longrightarrow> handleInputEvent K ev w = (0, w)) \<and>
   fst (handleInputEvent K ev w) = 0"
  by (simp add: handleInputEvent_def)

theorem handleInputEvent_other_witness:
  "AInputEvent_getType \<lparr>AInputEvent_getType = 1\<rparr> \<noteq> AINPUT_EVENT_TYPE_MOTION ndk \<and>
   handleInputEvent ndk \<lparr>AInputEvent_getType = 1\<rparr> (boot fresh_app []) = (0, boot fresh_app [])"
proof -
  have h: "AInputEvent_getType \<lparr>AInputEvent_getType = 1\<rparr> \<noteq> AINPUT_EVENT_TYPE_MOTION ndk"
    by (simp add: ndk_def)
  show ?thesis
    using h handleInputEvent_other [of "\<lparr>AInputEvent_getType = 1\<rparr>" ndk "boot fresh_app []"]
    by simp
qed

section \<open>The poll loop\<close>

text \<open>
  C5. Whenever the check that follows the processing of a drained event finds the
  destroy-requested flag set (the poll returned a non-negative status, the source was
  processed if there was one, and the flag is then not 0), the inner loop leaves through
  \<open>return\<close> and the pump returns to its caller. The world it returns is the one after
  the processing with exactly one more record, the final one of informational severity, at
  the end of the trace; the looper has given out only the answer of that one poll, so no
  poll call follows the final record.
\<close>

theorem destroy_observed_exits:
  assumes "ALooper_pollOnce w = (r, w1)"
    and "0 \<le> sint (status r)"
    and "destroyRequested (app (process_if_source K r w1)) \<noteq> 0"
  shows "inner_loop K w =
           Some (Returned, (process_if_source K r w1)
                   \<lparr>trace := trace (process_if_source K r w1) @
                      [LogRecord ANDROID_LOG_INFO kLogTag ''Destroy requested, exiting'']\<rparr>) \<and>
         outer_loop K w =
           Some ((process_if_source K r w1)
                   \<lparr>trace := trace (process_if_source K r w1) @
                      [LogRecord ANDROID_LOG_INFO kLogTag ''Destroy requested, exiting'']\<rparr>) \<and>
         looper (process_if_source K r w1) = stl (looper w)"
proof -
  from assms(1) have r: "r = shd (looper w)"
    and w1: "w1 = w\<lparr>looper := stl (looper w), trace := trace w @ [PollCall]\<rparr>"
    by (simp_all add: ALooper_pollOnce_def)
  from assms(2) r have nonneg: "0 \<le> sint (status (shd (looper w)))" by simp
  then have "\<not> sint (status (shd (looper w))) < 0" by simp
  with assms(3) have "outer_loop K w =
           Some ((process_if_source K r w1)
                   \<lparr>trace := trace (process_if_source K r w1) @ [final_record]\<rparr>)"
    unfolding r w1 by (subst outer_loop_unfold) (simp add: Let_def android_log_print_def)
  moreover from assms(3) have "inner_loop K w =
           Some (Returned, (process_if_source K r w1)
                   \<lparr>trace := trace (process_if_source K r w1) @ [final_record]\<rparr>)"
    unfolding r w1 by (simp add: inner_loop_nonneg [OF nonneg] Let_def android_log_print_def)
  ultimately show ?thesis by (simp add: w1)
qed

theorem destroy_observed_exits_witness:
  "outer_loop ndk (boot fresh_app [delivers [RequestDestroy]]) =
     Some \<lparr>app = fresh_app\<lparr>destroyRequested := 1\<rparr>, looper = sconst no_events,
           trace = [PollCall, LogRecord ANDROID_LOG_INFO kLogTag ''Destroy requested, exiting'']\<rparr>"
proof -
  let ?w = "boot fresh_app [delivers [RequestDestroy]]"
  let ?w1 = "\<lparr>app = fresh_app, looper = sconst no_events, trace = [PollCall]\<rparr>"
  have h1: "ALooper_pollOnce ?w = (delivers [RequestDestroy], ?w1)"
    by (simp add: ALooper_pollOnce_def boot_def)
  have h2: "0 \<le> sint (status (delivers [RequestDestroy]))"
    by (simp add: delivers_def)
  have p: "process_if_source ndk (delivers [RequestDestroy]) ?w1 =
             \<lparr>app = fresh_app\<lparr>destroyRequested := 1\<rparr>, looper = sconst no_events, trace = [PollCall]\<rparr>"
    by (simp add: process_if_source_def process_def delivers_def)
  have h3: "destroyRequested (app (process_if_source ndk (delivers [RequestDestroy]) ?w1)) \<noteq> 0"
    by (simp add: p)
  from destroy_observed_exits [OF h1 h2 h3, THEN conjunct2, THEN conjunct1] show ?thesis
    by (simp add: p)
qed

text \<open>
  C6, as amended. The claim reads: once the flag is true the pump exits and polls no more,
  however the flag came to be true. The code looks at the flag only after a poll that
  returned a non-negative status. So: when the flag is already set, the pump polls once
  for every negative status that comes first, then once more for the first non-negative
  status, processes that event, writes the final record and returns; the flag is still set
  then (neither the pump nor a handler clears it) and no poll call follows.
\<close>

theorem set_flag_exits_at_first_event:
  assumes "destroyRequested (app w) \<noteq> 0"
    and "looper w = rs @- (r ## rest)"
    and "\<forall>x \<in> set rs. sint (status x) < 0"
    and "0 \<le> sint (status r)"
  shows "outer_loop K w =
           Some (android_log_print ANDROID_LOG_INFO kLogTag ''Destroy requested, exiting''
                   (process_if_source K r
                      (w\<lparr>looper := rest,
                         trace := trace w @ replicate (length rs) PollCall @ [PollCall]\<rparr>))) \<and>
         destroyRequested (app (process_if_source K r
                      (w\<lparr>looper := rest,
                         trace := trace w @ replicate (length rs) PollCall @ [PollCall]\<rparr>))) \<noteq> 0 \<and>
         looper (process_if_source K r
                      (w\<lparr>looper := rest,
                         trace := trace w @ replicate (length rs) PollCall @ [PollCall]\<rparr>)) = rest"
proof -
  let ?w0 = "w\<lparr>looper := r ## rest, trace := trace w @ replicate (length rs) PollCall\<rparr>"
  let ?w1 = "w\<lparr>looper := rest, trace := trace w @ replicate (length rs) PollCall @ [PollCall]\<rparr>"
  have set: "destroyRequested (app (process_if_source K r ?w1)) \<noteq> 0"
    using assms(1) by (intro flag_stays_set) simp
  have "outer_loop K w = outer_loop K ?w0"
    by (rule outer_loop_skips_negatives [OF assms(2,3)])
  also have "\<dots> = Some (android_log_print ANDROID_LOG_INFO kLogTag ''Destroy requested, exiting''
                   (process_if_source K r ?w1))"
    using assms(4) set by (subst outer_loop_unfold) (simp add: Let_def)
  finally show ?thesis using set by simp
qed

theorem set_flag_exits_at_first_event_witness:
  "outer_loop ndk (boot (fresh_app\<lparr>destroyRequested := 1\<rparr>) [no_events, no_events, delivers []]) =
     Some \<lparr>app = fresh_app\<lparr>destroyRequested := 1\<rparr>, looper = sconst no_events,
           trace = [PollCall, PollCall, PollCall,
                    LogRecord ANDROID_LOG_INFO kLogTag ''Destroy requested, exiting'']\<rparr>"
proof -
  let ?w = "boot (fresh_app\<lparr>destroyRequested := 1\<rparr>) [no_events, no_events, delivers []]"
  have h1: "destroyRequested (app ?w) \<noteq> 0" by (simp add: boot_def)
  have h2: "looper ?w = [no_events, no_events] @- (delivers [] ## sconst no_events)"
    by (simp add: boot_def)
  have h3: "\<forall>x \<in> set [no_events, no_events]. sint (status x) < 0"
    by (simp add: no_events_def)
  have h4: "0 \<le> sint (status (delivers []))" by (simp add: delivers_def)
  from set_flag_exits_at_first_event [OF h1 h2 h3 h4, of ndk, THEN conjunct1] show ?thesis
    by (simp add: boot_def process_if_source_def process_def delivers_def android_log_print_def)
qed

text \<open>
  The claim as stated fails: started with the flag already set, the pump still polls three
  times when the first two polls report an empty queue, and it never returns when every
  poll does.
\<close>

theorem set_flag_polls_again:
  "destroyRequested (app (boot (fresh_app\<lparr>destroyRequested := 1\<rparr>) [no_events, no_events, delivers []])) = 1 \<and>
   map_option trace
     (android_main ndk (boot (fresh_app\<lparr>destroyRequested := 1\<rparr>) [no_events, no_events, delivers []])) =
     Some [LogRecord ANDROID_LOG_INFO kLogTag ''Native loop started'', PollCall, PollCall, PollCall,
           LogRecord ANDROID_LOG_INFO kLogTag ''Destroy requested, exiting''] \<and>
   destroyRequested (app (boot (fresh_app\<lparr>destroyRequested := 1\<rparr>) [])) = 1 \<and>
   android_main ndk (boot (fresh_app\<lparr>destroyRequested := 1\<rparr>) []) = None"
proof -
  have "android_main ndk (boot (fresh_app\<lparr>destroyRequested := 1\<rparr>) []) = None"
    unfolding android_main_def
    by (rule outer_loop_starves) (simp add: boot_def android_log_print_def no_events_def)
  moreover have "map_option trace
     (android_main ndk (boot (fresh_app\<lparr>destroyRequested := 1\<rparr>) [no_events, no_events, delivers []])) =
     Some [started_record, PollCall, PollCall, PollCall, final_record]"
    by (simp add: android_main_def boot_def fresh_app_def delivers_def no_events_def
        outer_loop_unfold process_if_source_def process_def android_log_print_def Let_def)
  ultimately show ?thesis by (simp add: boot_def)
qed

text \<open>
  C7. Every negative poll status has the same effect, whatever its value and whatever the
  looper left in \<open>source\<close>: the inner loop ends without a return, the only trace entry
  added is the poll call itself (no record is written, the application handle is
  untouched), and the pump goes on with the next round of the outer loop from that world.
\<close>

theorem negative_status_drains:
  assumes "ALooper_pollOnce w = (r, w1)" and "sint (status r) < 0"
  shows "inner_loop K w = Some (Drained, w1) \<and>
         w1 = w\<lparr>looper := stl (looper w), trace := trace w @ [PollCall]\<rparr> \<and>
         outer_loop K w = outer_loop K w1"
proof -
  from assms(1) have r: "r = shd (looper w)"
    and w1: "w1 = w\<lparr>looper := stl (looper w), trace := trace w @ [PollCall]\<rparr>"
    by (simp_all add: ALooper_pollOnce_def)
  from assms(2) r have neg: "sint (status (shd (looper w))) < 0" by simp
  have "outer_loop K w = outer_loop K w1"
    unfolding w1 using neg by (subst outer_loop_unfold) (simp add: Let_def)
  with inner_loop_negative [OF neg, of K] w1 show ?thesis by simp
qed

theorem negative_status_drains_witness:
  "inner_loop ndk (boot fresh_app [\<lparr>status = - 4, source = Some \<lparr>process_steps = [RequestDestroy]\<rparr>\<rparr>]) =
     Some (Drained, \<lparr>app = fresh_app, looper = sconst no_events, trace = [PollCall]\<rparr>)"
proof -
  let ?r = "\<lparr>status = - 4, source = Some \<lparr>process_steps = [RequestDestroy]\<rparr>\<rparr>"
  let ?w1 = "\<lparr>app = fresh_app, looper = sconst no_events, trace = [PollCall]\<rparr>"
  have h1: "ALooper_pollOnce (boot fresh_app [?r]) = (?r, ?w1)"
    by (simp add: ALooper_pollOnce_def boot_def)
  have h2: "sint (status ?r) < 0" by simp
  from negative_status_drains [OF h1 h2] show ?thesis by simp
qed

section \<open>The end-to-end scenario\<close>

text \<open>
  C8, as amended. The looper hands out three events in this order: a poll source that
  delivers the window-available command, one that delivers a motion input event, and one
  that requests destruction. Started at the entry point with the flag clear, the pump
  returns with exactly four records: the start-up record (informational), then
  informational, verbose, informational. It polls exactly three times, once per event,
  and the rest of the looper's answers is left unread.
\<close>

theorem three_event_scenario:
  assumes "destroyRequested (app w) = 0"
    and "looper w =
           \<lparr>status = s1, source = Some \<lparr>process_steps = [DeliverCmd (APP_CMD_INIT_WINDOW K)]\<rparr>\<rparr> ##
           \<lparr>status = s2, source = Some \<lparr>process_steps = [DeliverInput ev]\<rparr>\<rparr> ##
           \<lparr>status = s3, source = Some \<lparr>process_steps = [RequestDestroy]\<rparr>\<rparr> ## rest"
    and "0 \<le> sint s1" and "0 \<le> sint s2" and "0 \<le> sint s3"
    and "AInputEvent_getType ev = AINPUT_EVENT_TYPE_MOTION K"
  shows "android_main K w =
           Some (w\<lparr>app := (app w)\<lparr>onAppCmd := Some handleAppCommand_ptr,
                                  onInputEvent := Some handleInputEvent_ptr,
                                  destroyRequested := 1\<rparr>,
                    looper := rest,
                    trace := trace w @
                      [LogRecord ANDROID_LOG_INFO kLogTag ''Native loop started'', PollCall,
                       LogRecord ANDROID_LOG_INFO kLogTag ''Window initialized'', PollCall,
                       LogRecord ANDROID_LOG_VERBOSE kLogTag ''Motion input event'', PollCall,
                       LogRecord ANDROID_LOG_INFO kLogTag ''Destroy requested, exiting'']\<rparr>)"
  using assms
  by (simp add: android_main_def outer_loop_unfold process_if_source_def process_def
      android_log_print_def handleAppCommand_def handleInputEvent_def Let_def)

theorem three_event_scenario_witness:
  "android_main ndk
     (boot fresh_app [delivers [DeliverCmd 1], delivers [DeliverInput \<lparr>AInputEvent_getType = 2\<rparr>],
                      delivers [RequestDestroy]]) =
     Some \<lparr>app = \<lparr>onAppCmd = Some handleAppCommand_ptr, onInputEvent = Some handleInputEvent_ptr,
                  destroyRequested = 1\<rparr>,
           looper = sconst no_events,
           trace = [LogRecord ANDROID_LOG_INFO kLogTag ''Native loop started'', PollCall,
                    LogRecord ANDROID_LOG_INFO kLogTag ''Window initialized'', PollCall,
                    LogRecord ANDROID_LOG_VERBOSE kLogTag ''Motion input event'', PollCall,
                    LogRecord ANDROID_LOG_INFO kLogTag ''Destroy requested, exiting'']\<rparr>"
proof -
  let ?w = "boot fresh_app [delivers [DeliverCmd 1], delivers [DeliverInput \<lparr>AInputEvent_getType = 2\<rparr>],
                      delivers [RequestDestroy]]"
  have h1: "destroyRequested (app ?w) = 0" by (simp add: boot_def fresh_app_def)
  have h2: "looper ?w =
           \<lparr>status = 1, source = Some \<lparr>process_steps = [DeliverCmd (APP_CMD_INIT_WINDOW ndk)]\<rparr>\<rparr> ##
           \<lparr>status = 1, source = Some \<lparr>process_steps = [DeliverInput \<lparr>AInputEvent_getType = 2\<rparr>]\<rparr>\<rparr> ##
           \<lparr>status = 1, source = Some \<lparr>process_steps = [RequestDestroy]\<rparr>\<rparr> ## sconst no_events"
    by (simp add: boot_def delivers_def ndk_def)
  have h3: "0 \<le> sint (1 :: int32)" by simp
  have h4: "AInputEvent_getType \<lparr>AInputEvent_getType = 2\<rparr> = AINPUT_EVENT_TYPE_MOTION ndk"
    by (simp add: ndk_def)
  from three_event_scenario [OF h1 h2 h3 h3 h3 h4] show ?thesis
    by (simp add: boot_def fresh_app_def)
qed

text \<open>
  The claim as stated, exactly three records with severities informational, verbose,
  informational, fails on the run from the entry point: the start-up record comes first.
\<close>

theorem scenario_emits_four_records:
  "map_option (severities \<circ> trace)
     (android_main ndk
        (boot fresh_app [delivers [DeliverCmd 1], delivers [DeliverInput \<lparr>AInputEvent_getType = 2\<rparr>],
                         delivers [RequestDestroy]])) =
     Some [ANDROID_LOG_INFO, ANDROID_LOG_INFO, ANDROID_LOG_VERBOSE, ANDROID_LOG_INFO] \<and>
   map_option (severities \<circ> trace)
     (android_main ndk
        (boot fresh_app [delivers [DeliverCmd 1], delivers [DeliverInput \<lparr>AInputEvent_getType = 2\<rparr>],
                         delivers [RequestDestroy]])) \<noteq>
     Some [ANDROID_LOG_INFO, ANDROID_LOG_VERBOSE, ANDROID_LOG_INFO]"
  by (simp add: android_main_def boot_def fresh_app_def delivers_def ndk_def
      outer_loop_unfold process_if_source_def process_def android_log_print_def
      handleAppCommand_def handleInputEvent_def Let_def)

section \<open>Entry and exit of \<open>android_main\<close>\<close>

text \<open>
  C9. The entry point first stores the two handlers in the application handle and writes
  one record of informational severity (the start-up record); the looper has not been asked
  yet. The loops run from that world. Hence every run that returns has a trace that begins
  with the start-up record, followed by the first poll call, and the start-up record does
  not occur again.
\<close>

theorem startup_record_first:
  "android_main K w =
     outer_loop K
       (w\<lparr>app := (app w)\<lparr>onAppCmd := Some handleAppCommand_ptr,
                           onInputEvent := Some handleInputEvent_ptr\<rparr>,
          trace := trace w @ [LogRecord ANDROID_LOG_INFO kLogTag ''Native loop started'']\<rparr>) \<and>
   (\<forall>w'. android_main K w = Some w' \<longrightarrow>
      (\<exists>evs. trace w' =
                trace w @ LogRecord ANDROID_LOG_INFO kLogTag ''Native loop started'' # PollCall # evs \<and>
             LogRecord ANDROID_LOG_INFO kLogTag ''Native loop started'' \<notin> set evs))"
proof (intro conjI allI impI)
  show "android_main K w =
     outer_loop K
       (w\<lparr>app := (app w)\<lparr>onAppCmd := Some handleAppCommand_ptr,
                           onInputEvent := Some handleInputEvent_ptr\<rparr>,
          trace := trace w @ [started_record]\<rparr>)"
    by (simp add: android_main_def android_log_print_def)
next
  fix w'
  assume "android_main K w = Some w'"
  then have "outer_loop K
       (w\<lparr>app := (app w)\<lparr>onAppCmd := Some handleAppCommand_ptr,
                           onInputEvent := Some handleInputEvent_ptr\<rparr>,
          trace := trace w @ [started_record]\<rparr>) = Some w'"
    by (simp add: android_main_def android_log_print_def)
  from outer_loop_shape [OF this] obtain evs
    where evs: "set evs \<subseteq> insert PollCall handler_records"
      and tr: "trace w' = (trace w @ [started_record]) @ PollCall # evs @ [final_record]"
    by auto
  from evs started_not_loop_event have "started_record \<notin> set (evs @ [final_record])"
    by auto
  with tr show "\<exists>evs. trace w' = trace w @ started_record # PollCall # evs \<and>
                  started_record \<notin> set evs"
    by (intro exI [of _ "evs @ [final_record]"]) simp
qed

theorem startup_record_first_witness:
  "\<exists>evs. [LogRecord ANDROID_LOG_INFO kLogTag ''Native loop started'', PollCall,
           LogRecord ANDROID_LOG_INFO kLogTag ''Destroy requested, exiting''] =
          trace (boot fresh_app [delivers [RequestDestroy]]) @
            LogRecord ANDROID_LOG_INFO kLogTag ''Native loop started'' # PollCall # evs \<and>
          LogRecord ANDROID_LOG_INFO kLogTag ''Native loop started'' \<notin> set evs"
  using startup_record_first [of ndk "boot fresh_app [delivers [RequestDestroy]]",
      THEN conjunct2, rule_format, OF run_destroy_only]
  by simp

text \<open>
  C10. The entry point returns only through the destroy-requested branch: in the world it
  returns, the flag is set and the trace ends with the final record. If the flag is clear
  on entry and no processing routine that the looper ever hands out requests destruction,
  the entry point does not return.
\<close>

theorem returns_only_on_destroy:
  "(\<forall>w'. android_main K w = Some w' \<longrightarrow>
      destroyRequested (app w') \<noteq> 0 \<and>
      (\<exists>evs. trace w' = evs @ [LogRecord ANDROID_LOG_INFO kLogTag ''Destroy requested, exiting''])) \<and>
   (destroyRequested (app w) = 0 \<and>
    (\<forall>r \<in> sset (looper w). \<forall>src. source r = Some src \<longrightarrow>
        RequestDestroy \<notin> set (process_steps src)) \<longrightarrow>
    android_main K w = None)"
proof (intro conjI allI impI)
  fix w'
  assume "android_main K w = Some w'"
  then have "outer_loop K
       (android_log_print ANDROID_LOG_INFO kLogTag ''Native loop started''
          (w\<lparr>app := (app w)\<lparr>onAppCmd := Some handleAppCommand_ptr,
                             onInputEvent := Some handleInputEvent_ptr\<rparr>\<rparr>)) = Some w'"
    by (simp add: android_main_def)
  from outer_loop_shape [OF this]
  show "destroyRequested (app w') \<noteq> 0" and "\<exists>evs. trace w' = evs @ [final_record]"
    by auto
next
  let ?ws = "android_log_print ANDROID_LOG_INFO kLogTag ''Native loop started''
          (w\<lparr>app := (app w)\<lparr>onAppCmd := Some handleAppCommand_ptr,
                             onInputEvent := Some handleInputEvent_ptr\<rparr>\<rparr>)"
  assume "destroyRequested (app w) = 0 \<and>
    (\<forall>r \<in> sset (looper w). \<forall>src. source r = Some src \<longrightarrow>
        RequestDestroy \<notin> set (process_steps src))"
  then have q: "flag_never_set ?ws"
    by (simp add: flag_never_set_def android_log_print_def)
  show "android_main K w = None"
  proof (cases "android_main K w")
    case None
    then show ?thesis .
  next
    case (Some w')
    then have "outer_loop K ?ws = Some w'" by (simp add: android_main_def)
    from outer_loop_flag_never_set [OF this] q show ?thesis by simp
  qed
qed

theorem returns_only_on_destroy_witness:
  "android_main ndk
     (boot fresh_app [delivers [DeliverCmd 1], no_events,
                      delivers [DeliverInput \<lparr>AInputEvent_getType = 2\<rparr>]]) = None \<and>
   (\<exists>evs. [LogRecord ANDROID_LOG_INFO kLogTag ''Native loop started'', PollCall,
            LogRecord ANDROID_LOG_INFO kLogTag ''Destroy requested, exiting''] =
           evs @ [LogRecord ANDROID_LOG_INFO kLogTag ''Destroy requested, exiting''])"
proof -
  let ?w = "boot fresh_app [delivers [DeliverCmd 1], no_events,
                      delivers [DeliverInput \<lparr>AInputEvent_getType = 2\<rparr>]]"
  have h: "destroyRequested (app ?w) = 0 \<and>
    (\<forall>r \<in> sset (looper ?w). \<forall>src. source r = Some src \<longrightarrow>
        RequestDestroy \<notin> set (process_steps src))"
    by (simp add: boot_def fresh_app_def sset_shift delivers_def no_events_def)
  from returns_only_on_destroy [of ndk ?w, THEN conjunct2, rule_format, OF h]
    returns_only_on_destroy [of ndk "boot fresh_app [delivers [RequestDestroy]]",
      THEN conjunct1, rule_format, OF run_destroy_only]
  show ?thesis by simp
qed

end
